theory Spec2Isabelle
  imports Complex_Main "HOL-Library.Log_Nat"
begin

section \<open>Data model\<close>

text \<open>
  The service \<^verbatim>\<open>DepartmentAgentService\<close> of
  \<^verbatim>\<open>src/services/department-agent.service.ts\<close> keeps a private
  \<^verbatim>\<open>Map<string, DepartmentAgent>\<close> and talks to five collaborators (embedding
  provider, analytics, department service, metrics service, vector store).  The calls it
  makes to them are the observable behaviour of the service, so the model records them in
  a trace, in the order in which they are made.

  A JavaScript number is modelled by the real number it denotes: a finite double is a
  rational number, and the comparisons of the source are the comparisons of these reals.
  The arithmetic of the source is the arithmetic of IEEE 754 binary64 (section
  \<open>JavaScript arithmetic\<close> below): the exact result of each operation is rounded to the
  nearest double.  The scalars of a performance record are finite doubles (normalized
  scalars, in the words of the specification): NaN and the infinities are not
  represented as the value of a field.  A decimal literal of the source that is an
  operand of an operation (\<^verbatim>\<open>0.4\<close>, \<^verbatim>\<open>0.2\<close>) is the double nearest to it; the
  literals that are only compared or stored (\<^verbatim>\<open>0.7\<close>, \<^verbatim>\<open>0.3\<close>, \<^verbatim>\<open>0.8\<close>) are written
  as the reals of their notation.  Timestamps (\<^verbatim>\<open>Date.now()\<close>) are natural numbers
  handed to each operation, one argument for each call of \<^verbatim>\<open>Date.now()\<close> the operation
  can make.

  The map of the source holds references to agent objects and \<^verbatim>\<open>assignTask\<close> mutates
  such an object in place; the model holds values and stores the updated value under the
  key.  The calls to the analytics service, the metrics service, the console and the
  subscribers of the service are recorded and taken to return; the two remote calls of
  \<^verbatim>\<open>registerAgent\<close> and the response builder of the route handler may throw.
\<close>

datatype priority = High | Medium | Low

text \<open>
  Modelled from the spec: the type declarations \<^verbatim>\<open>DepartmentAgent\<close>
  (\<^verbatim>\<open>../types/department-agent.types\<close>), \<^verbatim>\<open>CitizenNeed\<close>
  (\<^verbatim>\<open>../types/citizen.types\<close>) and \<^verbatim>\<open>Agent\<close> (\<^verbatim>\<open>../types/agent.types\<close>)
  are not among the sources.  The records below have the fields the service reads and
  writes, with the types the data model of the specification gives them.  A task has the
  three fields of the object literal built in \<^verbatim>\<open>handleCitizenNeed\<close>; the fields of a
  department agent that the service never touches are the extension part
  (\<open>more\<close>) of the record.
\<close>

record Task =
  task_type :: string
  task_description :: string
  priority :: priority

record PerformanceRecord =
  responseTime :: real
  resolutionRate :: real
  efficiency :: real
  citizenSatisfaction :: real

record Schedule =
  availability :: bool

record DepartmentAgent =
  agent_id :: string
  schedule :: Schedule
  performance :: PerformanceRecord
  currentTask :: "Task option"

record CitizenNeed =
  need_type :: string
  need_description :: string
  urgency :: real

text \<open>The interface \<^verbatim>\<open>AgentTaskUpdate\<close> (lines 11 to 14).\<close>

record AgentTaskUpdate =
  agentId :: string
  task :: Task

text \<open>The argument of \<^verbatim>\<open>metricsService.updateMetrics\<close> (lines 91 to 97): the object
  under its only key \<^verbatim>\<open>social\<close>.\<close>

record SocialMetrics =
  healthcareAccessScore :: real
  educationQualityIndex :: real
  communityWellbeing :: real

text \<open>A thrown JavaScript error: its class name and its message.\<close>

datatype error = Error (error_name: string) (error_message: string)

text \<open>The payloads handed to \<^verbatim>\<open>analyticsService.trackEvent\<close>, one constructor for each
  call site.\<close>

datatype payload =
    AgentAssignedPayload string string nat
      \<comment> \<open>agentId, departmentId, timestamp (lines 42 to 46)\<close>
  | NoAvailableAgentsPayload string real nat
      \<comment> \<open>needType, urgency, timestamp (lines 74 to 78)\<close>
  | AgentSelectedPayload string string real real nat
      \<comment> \<open>agentId, needType, urgency, score, timestamp (lines 116 to 122)\<close>
  | TaskAssignedPayload string string priority nat
      \<comment> \<open>agentId, taskType, priority, timestamp (lines 137 to 142)\<close>
  | AgentRegisteredPayload string string string
      \<comment> \<open>agentId, role, department (lines 190 to 194)\<close>

text \<open>The record written to the vector index by \<^verbatim>\<open>registerAgent\<close> (lines 173 to 187).\<close>

record Metadata =
  md_type :: string
  md_agentId :: string
  md_role :: string
  md_name :: string
  md_personality :: string
  md_interests :: string
  md_traits :: string
  md_department :: string
  md_timestamp :: nat

record VectorRecord =
  vr_id :: string
  vr_values :: "real list"
  vr_metadata :: Metadata

text \<open>A call made to a collaborator or to the console.\<close>

datatype effect =
    TrackEvent string payload
  | Emit string AgentTaskUpdate
  | UpdateMetrics SocialMetrics
  | CreateEmbedding string
  | Upsert VectorRecord
  | ConsoleLog string
  | ConsoleError string error

subsection \<open>The registry: a JavaScript Map\<close>

text \<open>
  A JavaScript \<^verbatim>\<open>Map\<close> iterates in insertion order, and \<^verbatim>\<open>set\<close> on a key that is
  present replaces the value where it stands.  The order decides ties in
  \<^verbatim>\<open>selectBestAgent\<close>, so the map is an association list.
\<close>

fun map_get :: "('k \<times> 'v) list \<Rightarrow> 'k \<Rightarrow> 'v option" where
  "map_get [] k = None"
| "map_get ((k', v) # m) k = (if k' = k then Some v else map_get m k)"

definition map_has :: "('k \<times> 'v) list \<Rightarrow> 'k \<Rightarrow> bool" where
  "map_has m k = (map_get m k \<noteq> None)"

fun map_set :: "('k \<times> 'v) list \<Rightarrow> 'k \<Rightarrow> 'v \<Rightarrow> ('k \<times> 'v) list" where
  "map_set [] k v = [(k, v)]"
| "map_set ((k', v') # m) k v =
     (if k' = k then (k, v) # m else (k', v') # map_set m k v)"

definition map_values :: "('k \<times> 'v) list \<Rightarrow> 'v list" where
  "map_values m = map snd m"

text \<open>The service: its private field \<^verbatim>\<open>agents\<close> and the calls it has made so far.\<close>

record 'z service =
  agents :: "(string \<times> 'z DepartmentAgent_scheme) list"
  trace :: "effect list"

definition perform :: "effect \<Rightarrow> 'z service \<Rightarrow> 'z service" where
  "perform e s = s\<lparr>trace := trace s @ [e]\<rparr>"

definition new_service :: "'z service" where
  "new_service = \<lparr>agents = [], trace = []\<rparr>"

section \<open>Event listeners\<close>

text \<open>The listener of \<^verbatim>\<open>agentAssigned\<close> (lines 32 to 48).\<close>

definition agentAssigned ::
  "string \<Rightarrow> 'z DepartmentAgent_scheme \<Rightarrow> nat \<Rightarrow> 'z service \<Rightarrow> 'z service" where
  "agentAssigned departmentId agent now s =
     perform (TrackEvent ''agent_registered''
                (AgentAssignedPayload (agent_id agent) departmentId now))
       (s\<lparr>agents := map_set (agents s) (agent_id agent) agent\<rparr>)"

text \<open>The listener of \<^verbatim>\<open>agentsHealthUpdated\<close> (lines 50 to 65): the body of the
  \<^verbatim>\<open>forEach\<close>, and the loop over the agents of the event.\<close>

definition healthUpdate_step ::
  "'z service \<Rightarrow> 'z DepartmentAgent_scheme \<Rightarrow> 'z service" where
  "healthUpdate_step s agent =
     (if map_has (agents s) (agent_id agent)
      then s\<lparr>agents := map_set (agents s) (agent_id agent) agent\<rparr>
      else s)"

definition agentsHealthUpdated ::
  "string \<Rightarrow> 'z DepartmentAgent_scheme list \<Rightarrow> 'z service \<Rightarrow> 'z service" where
  "agentsHealthUpdated departmentId updated s = foldl healthUpdate_step s updated"

section \<open>JavaScript arithmetic\<close>

text \<open>
  The score of \<^verbatim>\<open>selectBestAgent\<close> is computed with the operators \<^verbatim>\<open>*\<close> and \<^verbatim>\<open>+\<close> of
  JavaScript on numbers, that is in IEEE 754 binary64 with rounding to nearest, ties to
  even, after each operation.

  \<open>floor_log2 x\<close> is the integer \<open>k\<close> with \<open>2 ^ k \<le> x < 2 ^ (k + 1)\<close>, for \<open>x > 0\<close>.
\<close>

definition floor_log2 :: "real \<Rightarrow> int" where
  "floor_log2 x =
     (if 1 \<le> x then int (floorlog 2 (nat \<lfloor>x\<rfloor>)) - 1
      else - int (floorlog 2 (nat (\<lceil>1 / x\<rceil> - 1))))"

text \<open>
  \<open>round64 x\<close> is the double nearest to the real \<open>x\<close>.  The doubles around \<open>x\<close> are the
  multiples of \<open>2 ^ e\<close>, where \<open>e\<close> leaves 53 bits to the significand and is at least
  \<open>- 1074\<close> (the subnormal numbers); of the two multiples next to \<open>x\<close> the nearer is taken,
  and the one with the even significand when \<open>x\<close> lies midway.  A result of magnitude
  \<open>2 ^ 1024\<close> or more is an infinity in the source; here it is \<open>2 ^ 1024\<close> with the sign of
  \<open>x\<close>, which lies beyond every finite double and equals itself, as the infinity does
  in a comparison.
\<close>

definition round64 :: "real \<Rightarrow> real" where
  "round64 x =
     (if x = 0 then 0
      else
        (let e = max (floor_log2 \<bar>x\<bar> - 52) (- 1074);
             q = \<bar>x\<bar> / 2 powi e;
             n = \<lfloor>q\<rfloor>;
             m = (if q - of_int n < 1 / 2 then n
                  else if 1 / 2 < q - of_int n then n + 1
                  else if even n then n else n + 1);
             y = of_int m * 2 powi e
         in sgn x * (if 2 ^ 1024 \<le> y then 2 ^ 1024 else y)))"

text \<open>The operators \<^verbatim>\<open>*\<close> and \<^verbatim>\<open>+\<close> on finite doubles, and the double that a decimal
  literal of the source denotes.\<close>

definition js_times :: "real \<Rightarrow> real \<Rightarrow> real" where
  "js_times x y = round64 (x * y)"

definition js_plus :: "real \<Rightarrow> real \<Rightarrow> real" where
  "js_plus x y = round64 (x + y)"

definition lit :: "real \<Rightarrow> real" where
  "lit x = round64 x"

section \<open>Task assignment\<close>

text \<open>\<^verbatim>\<open>Array.prototype.reduce\<close> without an initial value: the first element starts the
  accumulation, and an empty array raises a TypeError.\<close>

definition reduce :: "('a \<Rightarrow> 'a \<Rightarrow> 'a) \<Rightarrow> 'a list \<Rightarrow> error + 'a" where
  "reduce f xs =
     (case xs of
        [] \<Rightarrow> Inl (Error ''TypeError'' ''Reduce of empty array with no initial value'')
      | x # rest \<Rightarrow> Inr (foldl f x rest))"

text \<open>The callback of the reduction in \<^verbatim>\<open>selectBestAgent\<close> (lines 104 to 114).  The
  expression \<^verbatim>\<open>a * 0.4 + b * 0.4 + c * 0.2\<close> is evaluated from the left: each of the three
  products and each of the two sums is rounded.  On finite doubles the products and the
  first sum stay within the finite doubles; only the last sum can reach an infinity.\<close>

definition better ::
  "'z DepartmentAgent_scheme \<Rightarrow> 'z DepartmentAgent_scheme \<Rightarrow> 'z DepartmentAgent_scheme" where
  "better best current =
     (let score =
            js_plus
              (js_plus (js_times (responseTime (performance current)) (lit 0.4))
                       (js_times (resolutionRate (performance current)) (lit 0.4)))
              (js_times (efficiency (performance current)) (lit 0.2));
          bestScore =
            js_plus
              (js_plus (js_times (responseTime (performance best)) (lit 0.4))
                       (js_times (resolutionRate (performance best)) (lit 0.4)))
              (js_times (efficiency (performance best)) (lit 0.2))
      in if score > bestScore then current else best)"

text \<open>\<^verbatim>\<open>selectBestAgent\<close> (lines 100 to 125); \<open>now\<close> is the value of \<^verbatim>\<open>Date.now()\<close> at
  line 121.\<close>

definition selectBestAgent ::
  "'z DepartmentAgent_scheme list \<Rightarrow> CitizenNeed \<Rightarrow> nat \<Rightarrow> 'z service
     \<Rightarrow> error + ('z DepartmentAgent_scheme \<times> 'z service)" where
  "selectBestAgent candidates need now s =
     (case reduce better candidates of
        Inl e \<Rightarrow> Inl e
      | Inr selectedAgent \<Rightarrow>
          Inr (selectedAgent,
               perform (TrackEvent ''agent_selected''
                          (AgentSelectedPayload (agent_id selectedAgent) (need_type need)
                             (urgency need) (efficiency (performance selectedAgent)) now))
                 s))"

text \<open>\<^verbatim>\<open>assignTask\<close> (lines 127 to 145); \<open>now\<close> is the value of \<^verbatim>\<open>Date.now()\<close> at
  line 141.  The source mutates the agent object found in the map and stores it again
  under the same key.\<close>

definition assignTask :: "string \<Rightarrow> Task \<Rightarrow> nat \<Rightarrow> 'z service \<Rightarrow> 'z service" where
  "assignTask agentId' task' now s =
     (case map_get (agents s) agentId' of
        None \<Rightarrow> s
      | Some agent \<Rightarrow>
          perform (Emit ''taskAssigned'' \<lparr>agentId = agentId', task = task'\<rparr>)
            (perform (TrackEvent ''task_assigned''
                        (TaskAssignedPayload agentId' (task_type task') (priority task') now))
               (s\<lparr>agents := map_set (agents s) agentId' (agent\<lparr>currentTask := Some task'\<rparr>)\<rparr>)))"

text \<open>The filter of lines 69 to 71: an object is truthy, so \<^verbatim>\<open>!agent.currentTask\<close>
  holds exactly when the agent has no current task.\<close>

definition availableAgents :: "'z service \<Rightarrow> 'z DepartmentAgent_scheme list" where
  "availableAgents s =
     filter (\<lambda>agent. availability (schedule agent) \<and> currentTask agent = None)
       (map_values (agents s))"

text \<open>The task built at lines 83 to 88.\<close>

definition citizenRequestTask :: "CitizenNeed \<Rightarrow> Task" where
  "citizenRequestTask need =
     \<lparr>task_type = ''citizen_request'',
      task_description = need_description need,
      priority = (if urgency need > 0.7 then High
                  else if urgency need > 0.3 then Medium else Low)\<rparr>"

text \<open>The metrics update built at lines 91 to 97.\<close>

definition derivedMetrics :: "'z DepartmentAgent_scheme \<Rightarrow> SocialMetrics" where
  "derivedMetrics agent =
     \<lparr>healthcareAccessScore = efficiency (performance agent),
      educationQualityIndex = 0.8,
      communityWellbeing = citizenSatisfaction (performance agent)\<rparr>"

text \<open>\<^verbatim>\<open>handleCitizenNeed\<close> (lines 68 to 98).  \<open>t1\<close> is the value of the first call of
  \<^verbatim>\<open>Date.now()\<close> (line 77 or line 121), \<open>t2\<close> that of the second (line 141).  The
  operation runs to completion without interleaving, as in the single-threaded event
  loop when no collaborator yields.  Line 93 reads the performance of the selected agent
  after \<^verbatim>\<open>assignTask\<close> has run; \<^verbatim>\<open>assignTask\<close> writes the current task only, so the
  performance is that of the agent as it was selected.\<close>

definition handleCitizenNeed ::
  "CitizenNeed \<Rightarrow> nat \<Rightarrow> nat \<Rightarrow> 'z service \<Rightarrow> error + 'z service" where
  "handleCitizenNeed need t1 t2 s =
     (if length (availableAgents s) = 0
      then Inr (perform (TrackEvent ''no_available_agents''
                           (NoAvailableAgentsPayload (need_type need) (urgency need) t1)) s)
      else
        (case selectBestAgent (availableAgents s) need t1 s of
           Inl e \<Rightarrow> Inl e
         | Inr (agent, s1) \<Rightarrow>
             Inr (perform (UpdateMetrics (derivedMetrics agent))
                    (assignTask (agent_id agent) (citizenRequestTask need) t2 s1))))"


section \<open>Agent enrollment\<close>

text \<open>
  Modelled from the spec: the type \<^verbatim>\<open>Agent\<close> of \<^verbatim>\<open>../types/agent.types\<close> is not among
  the sources.  The record has the fields \<^verbatim>\<open>registerAgent\<close> reads; the type of the
  trait mapping is left open, and \<^verbatim>\<open>JSON.stringify\<close> on it is an argument of the
  operation.
\<close>

record 't Agent =
  a_id :: string
  a_name :: string
  a_role :: string
  a_personality :: string
  a_interests :: "string list"
  a_traits :: 't
  a_department :: "string option"

text \<open>\<^verbatim>\<open>Array.prototype.join\<close> on an array of strings.\<close>

fun join :: "string \<Rightarrow> string list \<Rightarrow> string" where
  "join sep [] = []"
| "join sep [x] = x"
| "join sep (x # y # zs) = x @ sep @ join sep (y # zs)"

text \<open>The template string of line 169.\<close>

definition embeddingInput :: "'t Agent \<Rightarrow> string" where
  "embeddingInput agent =
     a_role agent @ '' '' @ a_personality agent @ '' '' @ join '' '' (a_interests agent)"

text \<open>\<^verbatim>\<open>agent.department || "general"\<close>: an absent department and the empty string are
  both falsy.\<close>

definition departmentOrGeneral :: "'t Agent \<Rightarrow> string" where
  "departmentOrGeneral agent =
     (case a_department agent of
        None \<Rightarrow> ''general''
      | Some d \<Rightarrow> if d = [] then ''general'' else d)"

text \<open>The body of the \<^verbatim>\<open>try\<close> block of \<^verbatim>\<open>registerAgent\<close> (lines 167 to 200).  The two
  remote calls are arguments: each returns its result or the error it throws.  \<open>now\<close> is
  the value of \<^verbatim>\<open>Date.now()\<close> at line 185.  The message of line 197 starts with the
  three bytes of U+2705 in UTF-8.\<close>

definition registerAgent_try ::
  "(string \<Rightarrow> error + real list) \<Rightarrow> (VectorRecord \<Rightarrow> error + unit) \<Rightarrow> ('t \<Rightarrow> string)
     \<Rightarrow> nat \<Rightarrow> 't Agent \<Rightarrow> 'z service \<Rightarrow> (error + unit) \<times> 'z service" where
  "registerAgent_try createEmbedding upsert stringify now agent s =
     (let s1 = perform (CreateEmbedding (embeddingInput agent)) s
      in case createEmbedding (embeddingInput agent) of
           Inl e \<Rightarrow> (Inl e, s1)
         | Inr embedding \<Rightarrow>
             (let entry =
                    \<lparr>vr_id = ''agent-'' @ a_id agent,
                     vr_values = embedding,
                     vr_metadata =
                       \<lparr>md_type = ''department_agent'',
                        md_agentId = a_id agent,
                        md_role = a_role agent,
                        md_name = a_name agent,
                        md_personality = a_personality agent,
                        md_interests = join '','' (a_interests agent),
                        md_traits = stringify (a_traits agent),
                        md_department = departmentOrGeneral agent,
                        md_timestamp = now\<rparr>\<rparr>;
                  s2 = perform (Upsert entry) s1
              in case upsert entry of
                   Inl e \<Rightarrow> (Inl e, s2)
                 | Inr u \<Rightarrow>
                     (Inr (),
                      perform (ConsoleLog
                                 ([CHR 0xE2, CHR 0x9C, CHR 0x85]
                                    @ '' Registered department agent: '' @ a_name agent
                                    @ '' in '' @ departmentOrGeneral agent @ '' department''))
                        (perform (TrackEvent ''agent_registered''
                                    (AgentRegisteredPayload (a_id agent) (a_role agent)
                                       (departmentOrGeneral agent)))
                           s2))))"

text \<open>\<^verbatim>\<open>registerAgent\<close> (lines 165 to 205): the \<^verbatim>\<open>catch\<close> clause logs the error and
  throws it again.\<close>

definition registerAgent ::
  "(string \<Rightarrow> error + real list) \<Rightarrow> (VectorRecord \<Rightarrow> error + unit) \<Rightarrow> ('t \<Rightarrow> string)
     \<Rightarrow> nat \<Rightarrow> 't Agent \<Rightarrow> 'z service \<Rightarrow> (error + unit) \<times> 'z service" where
  "registerAgent createEmbedding upsert stringify now agent s =
     (case registerAgent_try createEmbedding upsert stringify now agent s of
        (Inl err, s') \<Rightarrow>
          (Inl err,
           perform (ConsoleError (''Failed to register agent '' @ a_name agent @ '':'') err) s')
      | (Inr u, s') \<Rightarrow> (Inr u, s'))"

section \<open>The environmental metrics endpoint\<close>

text \<open>The route handler of
  \<^verbatim>\<open>src/app/api/districts/[id]/metrics/environmental/route.ts\<close>.\<close>

record EnvironmentalMetrics =
  airQuality :: int
  noiseLevel :: int
  crowdingLevel :: int
  greenSpaceUsage :: int

datatype body = Data EnvironmentalMetrics | ErrorBody string

record response =
  status :: nat
  body :: body

record params =
  params_id :: string

text \<open>\<^verbatim>\<open>NextResponse.json\<close> of the framework: a response with the given body; the status
  is 200 unless the second argument gives one.\<close>

definition NextResponse_json :: "body \<Rightarrow> nat option \<Rightarrow> error + response" where
  "NextResponse_json b init =
     Inr \<lparr>status = (case init of None \<Rightarrow> 200 | Some st \<Rightarrow> st), body = b\<rparr>"

text \<open>\<^verbatim>\<open>GET\<close> (lines 3 to 22).  The only call inside the \<^verbatim>\<open>try\<close> block is the one that
  builds the response, so the handler takes that function as its first argument: where
  it throws, the \<^verbatim>\<open>catch\<close> clause answers.\<close>

definition GET ::
  "(body \<Rightarrow> nat option \<Rightarrow> error + response) \<Rightarrow> 'r \<Rightarrow> params \<Rightarrow> error + response" where
  "GET json request ps =
     (let data = \<lparr>airQuality = 250, noiseLevel = 60, crowdingLevel = 68, greenSpaceUsage = 78\<rparr>
      in case json (Data data) None of
           Inr r \<Rightarrow> Inr r
         | Inl err \<Rightarrow> json (ErrorBody ''Failed to fetch environmental metrics'') (Some 500))"

section \<open>Notions used in the statements\<close>

text \<open>The score of an agent: the value that the callback of the reduction computes for
  it, \<open>0.4 * responseTime + 0.4 * resolutionRate + 0.2 * efficiency\<close> in the arithmetic
  of the source.\<close>

definition score :: "'z DepartmentAgent_scheme \<Rightarrow> real" where
  "score a =
     js_plus
       (js_plus (js_times (responseTime (performance a)) (lit 0.4))
                (js_times (resolutionRate (performance a)) (lit 0.4)))
       (js_times (efficiency (performance a)) (lit 0.2))"

text \<open>The same weighted sum in exact arithmetic, for comparison.\<close>

definition exact_score :: "'z DepartmentAgent_scheme \<Rightarrow> real" where
  "exact_score a =
     0.4 * responseTime (performance a) + 0.4 * resolutionRate (performance a)
       + 0.2 * efficiency (performance a)"

text \<open>The invariant of the registry: a \<^verbatim>\<open>Map\<close> holds each key once, and both listeners
  store an agent under its own identifier.\<close>

definition registry_ok :: "'z service \<Rightarrow> bool" where
  "registry_ok s \<longleftrightarrow>
     distinct (map fst (agents s)) \<and> (\<forall>(k, a) \<in> set (agents s). agent_id a = k)"

text \<open>The telemetry call of lines 116 to 122, for a given selected agent.\<close>

definition agentSelectedEvent :: "'z DepartmentAgent_scheme \<Rightarrow> CitizenNeed \<Rightarrow> nat \<Rightarrow> effect" where
  "agentSelectedEvent a need now =
     TrackEvent ''agent_selected''
       (AgentSelectedPayload (agent_id a) (need_type need) (urgency need)
          (efficiency (performance a)) now)"

text \<open>Projections of a trace: the metrics updates pushed, the payloads tracked under a
  given event name, and the notifications emitted under a given name.\<close>

fun metricsUpdates :: "effect list \<Rightarrow> SocialMetrics list" where
  "metricsUpdates [] = []"
| "metricsUpdates (UpdateMetrics m # es) = m # metricsUpdates es"
| "metricsUpdates (e # es) = metricsUpdates es"

fun tracked :: "string \<Rightarrow> effect list \<Rightarrow> payload list" where
  "tracked name [] = []"
| "tracked name (TrackEvent n p # es) =
     (if n = name then p # tracked name es else tracked name es)"
| "tracked name (e # es) = tracked name es"

fun emitted :: "string \<Rightarrow> effect list \<Rightarrow> AgentTaskUpdate list" where
  "emitted name [] = []"
| "emitted name (Emit n u # es) =
     (if n = name then u # emitted name es else emitted name es)"
| "emitted name (e # es) = emitted name es"

section \<open>Example data\<close>

definition agentOf :: "string \<Rightarrow> bool \<Rightarrow> Task option \<Rightarrow> real \<Rightarrow> real \<Rightarrow> real \<Rightarrow> real
    \<Rightarrow> DepartmentAgent" where
  "agentOf i av t rt rr ef cs =
     \<lparr>agent_id = i, schedule = \<lparr>availability = av\<rparr>,
      performance = \<lparr>responseTime = rt, resolutionRate = rr, efficiency = ef,
                     citizenSatisfaction = cs\<rparr>,
      currentTask = t\<rparr>"

definition busyTask :: Task where
  "busyTask = \<lparr>task_type = ''inspection'', task_description = ''Bridge inspection'',
                priority = Medium\<rparr>"

definition alice :: DepartmentAgent where
  "alice = agentOf ''alice'' True None 0.5 0.5 0.5 0.5"

definition bob :: DepartmentAgent where
  "bob = agentOf ''bob'' True None 1 0.75 0.5 0.75"

definition carol :: DepartmentAgent where
  "carol = agentOf ''carol'' True None 1 0.75 0.5 0.25"

definition dave :: DepartmentAgent where
  "dave = agentOf ''dave'' True (Some busyTask) 1 1 1 1"

definition erin :: DepartmentAgent where
  "erin = agentOf ''erin'' False None 1 1 1 1"

text \<open>Three idle agents, one agent with a task and one that is not available.  The
  performance scalars of the five agents are the doubles 0.25, 0.5, 0.75 and 1.  The
  second and the third idle agent have the same response time, resolution rate and
  efficiency, hence the same score.\<close>

definition demo_service :: "unit service" where
  "demo_service =
     \<lparr>agents = [(''alice'', alice), (''bob'', bob), (''carol'', carol), (''dave'', dave),
                (''erin'', erin)],
      trace = []\<rparr>"

text \<open>Two idle agents, the second with the greater score (0.5 and 0.8), one agent with a
  task and one that is not available.\<close>

definition team_service :: "unit service" where
  "team_service =
     \<lparr>agents = [(''alice'', alice), (''bob'', bob), (''dave'', dave), (''erin'', erin)],
      trace = []\<rparr>"

text \<open>No idle agent.\<close>

definition busy_service :: "unit service" where
  "busy_service = \<lparr>agents = [(''dave'', dave), (''erin'', erin)], trace = []\<rparr>"

text \<open>One idle agent, whose score is the lowest of the registry.\<close>

definition single_service :: "unit service" where
  "single_service = \<lparr>agents = [(''dave'', dave), (''alice'', alice)], trace = []\<rparr>"

definition needOf :: "string \<Rightarrow> real \<Rightarrow> CitizenNeed" where
  "needOf d u = \<lparr>need_type = ''road_repair'', need_description = d, urgency = u\<rparr>"

text \<open>An agent to enroll, an embedding provider that fails and a vector index that accepts
  every record.\<close>

definition clerk :: "(string \<times> real) list Agent" where
  "clerk =
     \<lparr>a_id = ''c7'', a_name = ''Dana'', a_role = ''clerk'', a_personality = ''calm'',
      a_interests = [''records'', ''parks''], a_traits = [(''patience'', 0.9)],
      a_department = None\<rparr>"

definition failingEmbedding :: "string \<Rightarrow> error + real list" where
  "failingEmbedding input = Inl (Error ''Error'' ''Together API request failed'')"

definition acceptingUpsert :: "VectorRecord \<Rightarrow> error + unit" where
  "acceptingUpsert entry = Inr ()"

text \<open>An agent that is not registered, a new state for a registered one, and a response
  builder that throws when it is given no status.\<close>

definition frank :: DepartmentAgent where
  "frank = agentOf ''frank'' True None 1 1 1 1"

definition bob_off :: DepartmentAgent where
  "bob_off = agentOf ''bob'' False None 1 0.9 0.7 0.75"

definition failingJson :: "body \<Rightarrow> nat option \<Rightarrow> error + response" where
  "failingJson b init =
     (case init of
        None \<Rightarrow> Inl (Error ''TypeError'' ''Response body could not be serialized'')
      | Some st \<Rightarrow> NextResponse_json b init)"

text \<open>Two pairs of agents on which the rounding of the source decides.  The first pair
  has the performance scalars written \<^verbatim>\<open>1, 0.9, 0.7\<close> and \<^verbatim>\<open>0.9, 0.9, 0.9\<close>; in the second
  pair the efficiency of the first agent is the greatest double below 1.\<close>

definition grace :: DepartmentAgent where
  "grace = agentOf ''grace'' True None 1 (lit 0.9) (lit 0.7) 0.5"

definition heidi :: DepartmentAgent where
  "heidi = agentOf ''heidi'' True None (lit 0.9) (lit 0.9) (lit 0.9) 0.5"

definition ivan :: DepartmentAgent where
  "ivan = agentOf ''ivan'' True None 1 1 (1 - 1 / 2 ^ 53) 0.5"

definition judy :: DepartmentAgent where
  "judy = agentOf ''judy'' True None 1 1 1 0.5"

section \<open>Rounding\<close>

text \<open>The exponent function meets its specification, a rounded positive number is a
  multiple of the unit of its binade (or the stand-in of the infinity), and on doubles the
  comparisons with the literals \<^verbatim>\<open>0.7\<close> and \<^verbatim>\<open>0.3\<close> of the source, which denote the doubles
  nearest to 0.7 and 0.3, are the comparisons with the reals 0.7 and 0.3: no double lies
  between such a real and its nearest double.  The thresholds of \<open>citizenRequestTask\<close> are
  therefore written as these reals.\<close>

lemma floor_log2_ge1:
  assumes "1 \<le> x"
  shows "2 powi floor_log2 x \<le> x \<and> x < 2 powi (floor_log2 x + 1)"
proof -
  define n where "n = nat \<lfloor>x\<rfloor>"
  define f where "f = floorlog 2 n"
  have n1: "0 < n"
    using assms unfolding n_def by linarith
  have n2: "real n \<le> x"
    using assms unfolding n_def by linarith
  have n3: "x < real n + 1"
    using assms unfolding n_def by linarith
  from floorlog_bounds [of n 2] n1
  have b: "2 ^ (f - 1) \<le> n" "n < 2 ^ f"
    by (simp_all add: f_def)
  have pos: "0 < f"
    using n1 by (simp add: f_def floorlog_def)
  have fl: "floor_log2 x = int f - 1"
    using assms by (simp add: floor_log2_def n_def [symmetric] f_def [symmetric])
  from pos have "int f - 1 = int (f - 1)"
    by simp
  then have lo: "(2::real) powi floor_log2 x = 2 ^ (f - 1)"
    unfolding fl by (simp only: power_int_of_nat)
  have hi: "(2::real) powi (floor_log2 x + 1) = 2 ^ f"
    unfolding fl by (simp only: diff_add_cancel power_int_of_nat)
  from b(1) have "real (2 ^ (f - 1)) \<le> real n"
    by (rule of_nat_mono)
  then have b1: "(2::real) ^ (f - 1) \<le> real n"
    by simp
  from b(2) have "Suc n \<le> 2 ^ f"
    by simp
  then have "real (Suc n) \<le> real (2 ^ f)"
    by (rule of_nat_mono)
  then have b2: "real n + 1 \<le> 2 ^ f"
    by simp
  from b1 n2 have "(2::real) ^ (f - 1) \<le> x"
    by (rule order_trans)
  moreover from n3 b2 have "x < 2 ^ f"
    by (rule less_le_trans)
  ultimately show ?thesis
    by (simp only: lo hi)
qed

lemma floor_log2_lt1:
  assumes "0 < x" and "x < 1"
  shows "2 powi floor_log2 x \<le> x \<and> x < 2 powi (floor_log2 x + 1)"
proof -
  define n where "n = nat (\<lceil>1 / x\<rceil> - 1)"
  define f where "f = floorlog 2 n"
  from assms have y: "1 < 1 / x"
    by simp
  have n1: "0 < n"
    using y unfolding n_def by linarith
  have n2: "real n < 1 / x"
    using y unfolding n_def by linarith
  have n3: "1 / x \<le> real n + 1"
    using y unfolding n_def by linarith
  from floorlog_bounds [of n 2] n1
  have b: "2 ^ (f - 1) \<le> n" "n < 2 ^ f"
    by (simp_all add: f_def)
  have pos: "0 < f"
    using n1 by (simp add: f_def floorlog_def)
  have fl: "floor_log2 x = - int f"
    using assms by (simp add: floor_log2_def n_def [symmetric] f_def [symmetric])
  have lo: "(2::real) powi floor_log2 x = inverse (2 ^ f)"
    unfolding fl by (simp only: power_int_minus power_int_of_nat)
  from pos have "- int f + 1 = - int (f - 1)"
    by simp
  then have hi: "(2::real) powi (floor_log2 x + 1) = inverse (2 ^ (f - 1))"
    unfolding fl by (simp only: power_int_minus power_int_of_nat)
  from b(1) have "real (2 ^ (f - 1)) \<le> real n"
    by (rule of_nat_mono)
  then have b1: "(2::real) ^ (f - 1) \<le> real n"
    by simp
  from b(2) have "Suc n \<le> 2 ^ f"
    by simp
  then have "real (Suc n) \<le> real (2 ^ f)"
    by (rule of_nat_mono)
  then have b2: "real n + 1 \<le> 2 ^ f"
    by simp
  from n3 b2 have "1 / x \<le> 2 ^ f"
    by (rule order_trans)
  then have "inverse x \<le> 2 ^ f"
    by (simp only: inverse_eq_divide)
  with assms(1) have "inverse (2 ^ f) \<le> inverse (inverse x)"
    by (intro le_imp_inverse_le) simp_all
  then have lo': "inverse (2 ^ f) \<le> x"
    by simp
  from b1 n2 have "2 ^ (f - 1) < 1 / x"
    by (rule le_less_trans)
  then have "2 ^ (f - 1) < inverse x"
    by (simp only: inverse_eq_divide)
  then have "inverse (inverse x) < inverse (2 ^ (f - 1))"
    by (intro less_imp_inverse_less) simp_all
  then have hi': "x < inverse (2 ^ (f - 1))"
    by simp
  from lo' hi' show ?thesis
    by (simp only: lo hi)
qed

lemma floor_log2_bounds:
  assumes "0 < x"
  shows "2 powi floor_log2 x \<le> x \<and> x < 2 powi (floor_log2 x + 1)"
proof (cases "1 \<le> x")
  case True
  then show ?thesis
    by (rule floor_log2_ge1)
next
  case False
  with assms show ?thesis
    by (intro floor_log2_lt1) simp_all
qed


lemma floor_log2_unique:
  assumes "0 < x" and "2 powi k \<le> x" and "x < 2 powi (k + 1)"
  shows "floor_log2 x = k"
proof (rule ccontr)
  let ?F = "floor_log2 x"
  from floor_log2_bounds [OF assms(1)]
  have F: "2 powi ?F \<le> x" "x < 2 powi (?F + 1)"
    by simp_all
  assume "?F \<noteq> k"
  then consider "?F + 1 \<le> k" | "k + 1 \<le> ?F"
    by linarith
  then show False
  proof cases
    case 1
    then have "(2::real) powi (?F + 1) \<le> 2 powi k"
      by (intro power_int_increasing) simp_all
    with assms(2) F(2) show False
      by linarith
  next
    case 2
    then have "(2::real) powi (k + 1) \<le> 2 powi ?F"
      by (intro power_int_increasing) simp_all
    with assms(3) F(1) show False
      by linarith
  qed
qed

lemma round64_grid:
  assumes "0 < x"
  shows "round64 x = 2 ^ 1024
         \<or> (\<exists>m::int. round64 x = of_int m * 2 powi max (floor_log2 x - 52) (- 1074))"
proof -
  define e where "e = max (floor_log2 x - 52) (- 1074)"
  define q where "q = x / 2 powi e"
  define m where "m = (if q - of_int \<lfloor>q\<rfloor> < 1 / 2 then \<lfloor>q\<rfloor>
                  else if 1 / 2 < q - of_int \<lfloor>q\<rfloor> then \<lfloor>q\<rfloor> + 1
                  else if even \<lfloor>q\<rfloor> then \<lfloor>q\<rfloor> else \<lfloor>q\<rfloor> + 1)"
  define y where "y = real_of_int m * 2 powi e"
  define top where "top = (2::real) ^ 1024"
  from assms have "\<bar>x\<bar> = x" "sgn x = 1" "x \<noteq> 0"
    by simp_all
  then have "round64 x = (if top \<le> y then top else y)"
    unfolding round64_def Let_def y_def m_def q_def e_def top_def by (simp only: if_False mult_1)
  then have "round64 x = top \<or> round64 x = y"
    by (cases "top \<le> y") simp_all
  then show ?thesis
    unfolding top_def y_def e_def by blast
qed

lemma lit_07: "lit 0.7 = 3152519739159347 / 4503599627370496"
  by (simp add: lit_def round64_def floor_log2_def Let_def compute_floorlog)

lemma lit_03: "lit 0.3 = 5404319552844595 / 18014398509481984"
  by (simp add: lit_def round64_def floor_log2_def Let_def compute_floorlog)

lemma threshold_07:
  assumes "round64 u = u"
  shows "lit 0.7 < u \<longleftrightarrow> 0.7 < u"
proof
  assume "0.7 < u"
  then show "lit 0.7 < u"
    unfolding lit_07 by simp
next
  assume "lit 0.7 < u"
  then have gt: "3152519739159347 / 4503599627370496 < u"
    unfolding lit_07 .
  show "0.7 < u"
  proof (rule ccontr)
    assume "\<not> 0.7 < u"
    then have le: "u \<le> 7 / 10"
      by simp
    from gt have pos: "0 < u"
      by simp
    have "(2::real) powi (- 1) \<le> u"
      using gt by simp
    moreover have "u < 2 powi (- 1 + 1)"
      using le by simp
    ultimately have "floor_log2 u = - 1"
      using pos by (intro floor_log2_unique)
    then have e: "max (floor_log2 u - 52) (- 1074) = - 53"
      by simp
    from round64_grid [OF pos] assms
    have "u = 2 ^ 1024 \<or> (\<exists>m::int. u = of_int m * 2 powi (- 53))"
      unfolding e by simp
    moreover from le have "u \<noteq> 2 ^ 1024"
      by simp
    ultimately obtain m :: int where "u = of_int m * 2 powi (- 53)"
      by blast
    then have m: "u = of_int m / 9007199254740992"
      by simp
    from gt have "6305039478318694 < m"
      unfolding m by simp
    moreover from le have "10 * m \<le> 63050394783186944"
      unfolding m by simp
    ultimately show False
      by linarith
  qed
qed


lemma threshold_03:
  assumes "round64 u = u"
  shows "lit 0.3 < u \<longleftrightarrow> 0.3 < u"
proof
  assume "0.3 < u"
  then show "lit 0.3 < u"
    unfolding lit_03 by simp
next
  assume "lit 0.3 < u"
  then have gt: "5404319552844595 / 18014398509481984 < u"
    unfolding lit_03 .
  show "0.3 < u"
  proof (rule ccontr)
    assume "\<not> 0.3 < u"
    then have le: "u \<le> 3 / 10"
      by simp
    from gt have pos: "0 < u"
      by simp
    have "(2::real) powi (- 2) \<le> u"
      using gt by simp
    moreover have "u < 2 powi (- 2 + 1)"
      using le by simp
    ultimately have "floor_log2 u = - 2"
      using pos by (intro floor_log2_unique)
    then have e: "max (floor_log2 u - 52) (- 1074) = - 54"
      by simp
    from round64_grid [OF pos] assms
    have "u = 2 ^ 1024 \<or> (\<exists>m::int. u = of_int m * 2 powi (- 54))"
      unfolding e by simp
    moreover from le have "u \<noteq> 2 ^ 1024"
      by simp
    ultimately obtain m :: int where "u = of_int m * 2 powi (- 54)"
      by blast
    then have m: "u = of_int m / 18014398509481984"
      by simp
    from gt have "5404319552844595 < m"
      unfolding m by simp
    moreover from le have "10 * m \<le> 54043195528445952"
      unfolding m by simp
    ultimately show False
      by linarith
  qed
qed

lemma priority_on_doubles:
  assumes "round64 (urgency need) = urgency need"
  shows "priority (citizenRequestTask need)
           = (if urgency need > lit 0.7 then High
              else if urgency need > lit 0.3 then Medium else Low)"
  by (simp add: citizenRequestTask_def threshold_07 [OF assms] threshold_03 [OF assms])

section \<open>The registry\<close>

lemma map_has_iff: "map_has m k \<longleftrightarrow> k \<in> fst ` set m"
  unfolding map_has_def by (induction m) auto

lemma map_set_keys:
  "map fst (map_set m k v) = (if map_has m k then map fst m else map fst m @ [k])"
  unfolding map_has_def by (induction m) (auto split: if_splits)

lemma map_get_map_set:
  "map_get (map_set m k v) k' = (if k' = k then Some v else map_get m k')"
  by (induction m) auto

lemma map_get_map_of: "map_get m k = map_of m k"
  by (induction m) auto

lemma map_set_entries: "set (map_set m k v) \<subseteq> insert (k, v) (set m)"
  by (induction m) (auto split: if_splits)

lemma healthUpdate_step_keys:
  "map fst (agents (healthUpdate_step s a)) = map fst (agents s)"
  by (simp add: healthUpdate_step_def map_set_keys)

lemma healthUpdate_step_trace: "trace (healthUpdate_step s a) = trace s"
  by (simp add: healthUpdate_step_def)

lemma foldl_healthUpdate_keys:
  "map fst (agents (foldl healthUpdate_step s us)) = map fst (agents s)"
  by (induction us arbitrary: s) (simp_all add: healthUpdate_step_keys)

lemma foldl_healthUpdate_trace: "trace (foldl healthUpdate_step s us) = trace s"
  by (induction us arbitrary: s) (simp_all add: healthUpdate_step_trace)

lemma foldl_healthUpdate_get:
  "map_get (agents (foldl healthUpdate_step s us)) k = map_get (agents s) k
   \<or> (\<exists>u \<in> set us. agent_id u = k \<and> map_has (agents s) k
         \<and> map_get (agents (foldl healthUpdate_step s us)) k = Some u)"
proof (induction us rule: rev_induct)
  case Nil
  show ?case by simp
next
  case (snoc u us)
  let ?s' = "foldl healthUpdate_step s us"
  have "set (map fst (agents ?s')) = set (map fst (agents s))"
    by (simp only: foldl_healthUpdate_keys)
  then have has: "map_has (agents ?s') k' = map_has (agents s) k'" for k'
    by (simp add: map_has_iff)
  show ?case
  proof (cases "k = agent_id u \<and> map_has (agents ?s') (agent_id u)")
    case True
    then have "map_get (agents (healthUpdate_step ?s' u)) k = Some u"
      by (simp add: healthUpdate_step_def map_get_map_set)
    with True has [of k] show ?thesis
      by auto
  next
    case False
    then have "map_get (agents (healthUpdate_step ?s' u)) k = map_get (agents ?s') k"
      by (auto simp: healthUpdate_step_def map_get_map_set)
    with snoc.IH show ?thesis
      by auto
  qed
qed

section \<open>The invariant of the registry\<close>

text \<open>The invariant holds of the empty registry of a new service, and the two listeners
  keep it; so do \<^verbatim>\<open>handleCitizenNeed\<close> (shown with the assignment below) and
  \<^verbatim>\<open>registerAgent\<close>, which leaves the registry alone.  Under the invariant the agent
  selected from the values of the map is the one found under its identifier.\<close>

lemma registry_ok_perform: "registry_ok (perform e s) = registry_ok s"
  by (simp add: registry_ok_def perform_def)

lemma registry_ok_new: "registry_ok new_service"
  by (simp add: registry_ok_def new_service_def)

lemma registry_ok_map_set:
  assumes "registry_ok s" and "agent_id a = k"
  shows "registry_ok (s\<lparr>agents := map_set (agents s) k a\<rparr>)"
proof -
  from assms(1) have "distinct (map fst (map_set (agents s) k a))"
    by (auto simp: registry_ok_def map_set_keys map_has_iff)
  moreover from assms map_set_entries [of "agents s" k a]
  have "\<forall>(k', a') \<in> set (map_set (agents s) k a). agent_id a' = k'"
    by (auto simp: registry_ok_def)
  ultimately show ?thesis
    by (simp add: registry_ok_def)
qed

lemma registry_ok_agentAssigned:
  "registry_ok s \<Longrightarrow> registry_ok (agentAssigned departmentId agent now s)"
  by (simp add: agentAssigned_def registry_ok_perform registry_ok_map_set)

lemma registry_ok_healthUpdate_step:
  "registry_ok s \<Longrightarrow> registry_ok (healthUpdate_step s agent)"
  by (simp add: healthUpdate_step_def registry_ok_map_set)

lemma registry_ok_agentsHealthUpdated:
  "registry_ok s \<Longrightarrow> registry_ok (agentsHealthUpdated departmentId updated s)"
  unfolding agentsHealthUpdated_def
  by (induction updated arbitrary: s) (simp_all add: registry_ok_healthUpdate_step)

lemma registry_ok_get:
  assumes "registry_ok s" and "a \<in> set (map_values (agents s))"
  shows "map_get (agents s) (agent_id a) = Some a"
proof -
  from assms(2) obtain k where k: "(k, a) \<in> set (agents s)"
    by (auto simp: map_values_def)
  with assms(1) have "agent_id a = k"
    by (auto simp: registry_ok_def)
  moreover from assms(1) k have "map_of (agents s) k = Some a"
    by (simp add: registry_ok_def)
  ultimately show ?thesis
    by (simp add: map_get_map_of)
qed

lemma registerAgent_agents:
  "agents (snd (registerAgent createEmbedding upsert stringify now agent s)) = agents s"
  by (simp add: registerAgent_def registerAgent_try_def perform_def Let_def
        split: sum.splits)

section \<open>Selection\<close>

lemma better_score:
  "better best current = (if score current > score best then current else best)"
  by (simp add: better_def score_def Let_def algebra_simps)

lemma foldl_pick_first_max:
  fixes f :: "'a \<Rightarrow> 'b::linorder"
  assumes pick: "\<And>b c. g b c = (if f c > f b then c else b)"
  shows "\<exists>i < length (x # xs).
           foldl g x xs = (x # xs) ! i
           \<and> (\<forall>j < length (x # xs). f ((x # xs) ! j) \<le> f ((x # xs) ! i))
           \<and> (\<forall>j < i. f ((x # xs) ! j) < f ((x # xs) ! i))"
proof (induction xs rule: rev_induct)
  case Nil
  show ?case by simp
next
  case (snoc y ys)
  then obtain i where i: "i < length (x # ys)" "foldl g x ys = (x # ys) ! i"
    and le: "\<forall>j < length (x # ys). f ((x # ys) ! j) \<le> f ((x # ys) ! i)"
    and lt: "\<forall>j < i. f ((x # ys) ! j) < f ((x # ys) ! i)"
    by blast
  let ?zs = "x # ys @ [y]"
  have old: "?zs ! j = (x # ys) ! j" if "j < length (x # ys)" for j
    using that nth_append [of "x # ys" "[y]" j] by simp
  have new: "?zs ! length (x # ys) = y"
    using nth_append_length [of "x # ys" y "[]"] by simp
  show ?case
  proof (cases "f y > f ((x # ys) ! i)")
    case True
    have "foldl g x (ys @ [y]) = ?zs ! length (x # ys)"
      using True i(2) new by (simp add: pick)
    moreover have "\<forall>j < length ?zs. f (?zs ! j) \<le> f (?zs ! length (x # ys))"
    proof (intro allI impI)
      fix j assume "j < length ?zs"
      then consider "j < length (x # ys)" | "j = length (x # ys)" by fastforce
      then show "f (?zs ! j) \<le> f (?zs ! length (x # ys))"
      proof cases
        case 1
        then show ?thesis using le True old [OF 1] new by (metis le_less_trans less_imp_le)
      next
        case 2
        then show ?thesis by simp
      qed
    qed
    moreover have "\<forall>j < length (x # ys). f (?zs ! j) < f (?zs ! length (x # ys))"
      using le True old new by (metis le_less_trans)
    ultimately show ?thesis
      by (intro exI [of _ "length (x # ys)"]) simp
  next
    case False
    have "foldl g x (ys @ [y]) = ?zs ! i"
      using False i old [OF i(1)] by (simp add: pick)
    moreover have "\<forall>j < length ?zs. f (?zs ! j) \<le> f (?zs ! i)"
    proof (intro allI impI)
      fix j assume "j < length ?zs"
      then consider "j < length (x # ys)" | "j = length (x # ys)" by fastforce
      then show "f (?zs ! j) \<le> f (?zs ! i)"
      proof cases
        case 1
        then show ?thesis using le old [OF 1] old [OF i(1)] by simp
      next
        case 2
        then show ?thesis using False new old [OF i(1)] by (simp add: not_less)
      qed
    qed
    moreover have "\<forall>j < i. f (?zs ! j) < f (?zs ! i)"
    proof (intro allI impI)
      fix j assume "j < i"
      then have "j < length (x # ys)" using i(1) by simp
      then show "f (?zs ! j) < f (?zs ! i)"
        using lt \<open>j < i\<close> old [of j] old [OF i(1)] by simp
    qed
    ultimately show ?thesis using i(1)
      by (intro exI [of _ i]) simp
  qed
qed

lemma reduce_Cons: "reduce f (x # xs) = Inr (foldl f x xs)"
  by (simp add: reduce_def)


lemma reduce_better_mem:
  assumes "reduce better xs = Inr a"
  shows "a \<in> set xs"
proof (cases xs)
  case Nil
  with assms show ?thesis by (simp add: reduce_def)
next
  case (Cons y ys)
  from foldl_pick_first_max [of better score y ys, OF better_score]
  obtain i where "i < length (y # ys)" "foldl better y ys = (y # ys) ! i"
    by blast
  with assms Cons show ?thesis
    by (metis Inr_inject nth_mem reduce_Cons)
qed

lemma selectBestAgent_Inr:
  "selectBestAgent xs need now s = Inr (a, s1) \<longleftrightarrow>
     reduce better xs = Inr a \<and> s1 = perform (agentSelectedEvent a need now) s"
  by (auto simp: selectBestAgent_def agentSelectedEvent_def split: sum.splits)

lemma selectBestAgent_nonempty:
  "xs \<noteq> [] \<Longrightarrow> \<exists>a. selectBestAgent xs need now s
                       = Inr (a, perform (agentSelectedEvent a need now) s)"
  by (cases xs) (simp_all add: selectBestAgent_Inr reduce_Cons)

lemma selectBestAgent_available:
  assumes "availableAgents s \<noteq> []"
  shows "\<exists>a. a \<in> set (availableAgents s)
             \<and> selectBestAgent (availableAgents s) need t1 s
                 = Inr (a, perform (agentSelectedEvent a need t1) s)"
proof -
  from selectBestAgent_nonempty [OF assms] obtain a
    where sel: "selectBestAgent (availableAgents s) need t1 s
                  = Inr (a, perform (agentSelectedEvent a need t1) s)"
    by blast
  then have "reduce better (availableAgents s) = Inr a"
    by (simp add: selectBestAgent_Inr)
  then have "a \<in> set (availableAgents s)"
    by (rule reduce_better_mem)
  with sel show ?thesis
    by blast
qed

section \<open>Assignment\<close>

lemma tracked_append: "tracked n (xs @ ys) = tracked n xs @ tracked n ys"
  by (induction n xs rule: tracked.induct) simp_all

lemma emitted_append: "emitted n (xs @ ys) = emitted n xs @ emitted n ys"
  by (induction n xs rule: emitted.induct) simp_all

lemma metricsUpdates_append: "metricsUpdates (xs @ ys) = metricsUpdates xs @ metricsUpdates ys"
  by (induction xs rule: metricsUpdates.induct) simp_all

lemma assignTask_metricsUpdates:
  "metricsUpdates (trace (assignTask k tk t s)) = metricsUpdates (trace s)"
  by (simp add: assignTask_def perform_def metricsUpdates_append split: option.splits)

lemma priority_thresholds:
  "(priority (citizenRequestTask need) = High \<longleftrightarrow> urgency need > 0.7)
   \<and> (priority (citizenRequestTask need) = Medium
        \<longleftrightarrow> 0.3 < urgency need \<and> urgency need \<le> 0.7)
   \<and> (priority (citizenRequestTask need) = Low \<longleftrightarrow> urgency need \<le> 0.3)"
  by (auto simp: citizenRequestTask_def)

lemma handleCitizenNeed_selected:
  assumes "selectBestAgent (availableAgents s) need t1 s = Inr (a, s1)"
  shows "handleCitizenNeed need t1 t2 s =
           Inr (perform (UpdateMetrics (derivedMetrics a))
                  (assignTask (agent_id a) (citizenRequestTask need) t2 s1))"
proof -
  from assms have "reduce better (availableAgents s) = Inr a"
    by (simp add: selectBestAgent_Inr)
  then have "a \<in> set (availableAgents s)"
    by (rule reduce_better_mem)
  then have "length (availableAgents s) \<noteq> 0"
    by auto
  with assms show ?thesis
    by (simp add: handleCitizenNeed_def)
qed

lemma handleCitizenNeed_assigns:
  assumes ok: "registry_ok s"
    and sel: "selectBestAgent (availableAgents s) need t1 s = Inr (a, s1)"
  shows "handleCitizenNeed need t1 t2 s =
           Inr \<lparr>agents = map_set (agents s) (agent_id a)
                            (a\<lparr>currentTask := Some (citizenRequestTask need)\<rparr>),
                trace = trace s @
                  [agentSelectedEvent a need t1,
                   TrackEvent ''task_assigned''
                     (TaskAssignedPayload (agent_id a) ''citizen_request''
                        (priority (citizenRequestTask need)) t2),
                   Emit ''taskAssigned''
                     \<lparr>agentId = agent_id a, task = citizenRequestTask need\<rparr>,
                   UpdateMetrics (derivedMetrics a)]\<rparr>"
proof -
  from sel have red: "reduce better (availableAgents s) = Inr a"
    and s1: "s1 = perform (agentSelectedEvent a need t1) s"
    by (simp_all add: selectBestAgent_Inr)
  from red have mem: "a \<in> set (availableAgents s)"
    by (rule reduce_better_mem)
  then have ne: "length (availableAgents s) \<noteq> 0"
    by auto
  from mem have "a \<in> set (map_values (agents s))"
    by (simp add: availableAgents_def)
  with ok have get: "map_get (agents s) (agent_id a) = Some a"
    by (rule registry_ok_get)
  have asg: "assignTask (agent_id a) (citizenRequestTask need) t2 s1 =
      \<lparr>agents = map_set (agents s) (agent_id a)
                            (a\<lparr>currentTask := Some (citizenRequestTask need)\<rparr>),
                trace = trace s @
                  [agentSelectedEvent a need t1,
                   TrackEvent ''task_assigned''
                     (TaskAssignedPayload (agent_id a) ''citizen_request''
                        (priority (citizenRequestTask need)) t2),
                   Emit ''taskAssigned''
                     \<lparr>agentId = agent_id a, task = citizenRequestTask need\<rparr>]\<rparr>"
    using get by (simp add: assignTask_def s1 perform_def citizenRequestTask_def)
  show ?thesis
    using ne sel by (simp add: handleCitizenNeed_def asg perform_def)
qed

lemma assignment_outcome:
  assumes "registry_ok s" and "availableAgents s \<noteq> []"
  shows "\<exists>a s'.
           a \<in> set (availableAgents s)
         \<and> map_get (agents s) (agent_id a) = Some a
         \<and> selectBestAgent (availableAgents s) need t1 s
             = Inr (a, perform (agentSelectedEvent a need t1) s)
         \<and> handleCitizenNeed need t1 t2 s = Inr s'
         \<and> agents s' = map_set (agents s) (agent_id a)
                          (a\<lparr>currentTask := Some (citizenRequestTask need)\<rparr>)
         \<and> trace s' = trace s @
              [agentSelectedEvent a need t1,
               TrackEvent ''task_assigned''
                 (TaskAssignedPayload (agent_id a) ''citizen_request''
                    (priority (citizenRequestTask need)) t2),
               Emit ''taskAssigned'' \<lparr>agentId = agent_id a, task = citizenRequestTask need\<rparr>,
               UpdateMetrics (derivedMetrics a)]"
proof -
  from selectBestAgent_available [OF assms(2)] obtain a
    where mem: "a \<in> set (availableAgents s)"
      and sel: "selectBestAgent (availableAgents s) need t1 s
                  = Inr (a, perform (agentSelectedEvent a need t1) s)"
    by blast
  from mem have "a \<in> set (map_values (agents s))"
    by (simp add: availableAgents_def)
  with assms(1) have get: "map_get (agents s) (agent_id a) = Some a"
    by (rule registry_ok_get)
  from handleCitizenNeed_assigns [OF assms(1) sel, of t2] mem get sel show ?thesis
    by (intro exI [of _ a]) simp
qed

lemma registry_ok_handleCitizenNeed:
  assumes "registry_ok s" and "handleCitizenNeed need t1 t2 s = Inr s'"
  shows "registry_ok s'"
proof (cases "availableAgents s = []")
  case True
  with assms show ?thesis
    by (auto simp: handleCitizenNeed_def registry_ok_perform)
next
  case False
  from assignment_outcome [OF assms(1) False, of need t1 t2] assms(2) obtain a
    where "agents s' = map_set (agents s) (agent_id a)
                         (a\<lparr>currentTask := Some (citizenRequestTask need)\<rparr>)"
    by auto
  moreover have "registry_ok (s\<lparr>agents := map_set (agents s) (agent_id a)
                         (a\<lparr>currentTask := Some (citizenRequestTask need)\<rparr>)\<rparr>)"
    by (rule registry_ok_map_set [OF assms(1)]) simp
  ultimately show ?thesis
    by (simp add: registry_ok_def)
qed

section \<open>The example registry\<close>

lemmas demo_defs =
  demo_service_def team_service_def busy_service_def single_service_def alice_def bob_def
  carol_def dave_def erin_def agentOf_def busyTask_def needOf_def

lemmas score_eval =
  score_def js_plus_def js_times_def lit_def round64_def floor_log2_def Let_def
  compute_floorlog


lemma available_team: "availableAgents team_service = [alice, bob]"
  by (simp add: availableAgents_def map_values_def demo_defs)


lemma demo_scores:
  "score alice = 1 / 2"
  "score bob = 3602879701896397 / 4503599627370496"
  "score carol = 3602879701896397 / 4503599627370496"
  by (simp_all add: score_eval alice_def bob_def carol_def agentOf_def)

lemma registry_ok_demo: "registry_ok demo_service"
  by (simp add: registry_ok_def demo_defs)

lemma registry_ok_team: "registry_ok team_service"
  by (simp add: registry_ok_def demo_defs)

lemma select_team:
  "selectBestAgent (availableAgents team_service) need t team_service
     = Inr (bob, perform (agentSelectedEvent bob need t) team_service)"
  by (simp add: available_team selectBestAgent_Inr reduce_Cons better_score demo_scores)

text \<open>The performance scalars of the examples are doubles.\<close>

lemma example_scalars_are_doubles:
  "round64 0.25 = 0.25" "round64 0.5 = 0.5" "round64 0.75 = 0.75" "round64 1 = 1"
  "round64 (1 - 1 / 2 ^ 53) = 1 - 1 / 2 ^ 53"
  by (simp_all add: round64_def floor_log2_def Let_def compute_floorlog)

text \<open>Two lists on which the rounding decides.  Written in decimal, the scalars of the
  first pair give 0.9 twice; the source computes 0.9 for the first agent and the next
  double above it for the second, and selects the second.  In the second pair the exact
  weighted sum of the second agent is the greater one; the source computes 1 for both, and
  keeps the first.\<close>

lemma rounding_breaks_tie:
  "score grace = 8106479329266893 / 9007199254740992"
  "score heidi = 4053239664633447 / 4503599627370496"
  "reduce better [grace, heidi] = Inr heidi"
proof -
  show g: "score grace = 8106479329266893 / 9007199254740992"
    by (simp add: score_eval grace_def agentOf_def)
  show h: "score heidi = 4053239664633447 / 4503599627370496"
    by (simp add: score_eval heidi_def agentOf_def)
  show "reduce better [grace, heidi] = Inr heidi"
    by (simp add: reduce_Cons better_score g h)
qed

lemma rounding_makes_tie:
  "score ivan = 1" "score judy = 1" "exact_score ivan < exact_score judy"
  "reduce better [ivan, judy] = Inr ivan"
proof -
  show i: "score ivan = 1"
    by (simp add: score_eval ivan_def agentOf_def)
  show j: "score judy = 1"
    by (simp add: score_eval judy_def agentOf_def)
  show "exact_score ivan < exact_score judy"
    by (simp add: exact_score_def ivan_def judy_def agentOf_def)
  show "reduce better [ivan, judy] = Inr ivan"
    by (simp add: reduce_Cons better_score i j)
qed

section \<open>The claims\<close>



text \<open>
  C2.  In a well-formed registry with an eligible agent, \<^verbatim>\<open>handleCitizenNeed\<close> stores a
  task with the selected agent and emits it in the \<^verbatim>\<open>taskAssigned\<close> notification; the
  priority of that task is \<open>High\<close> exactly when the urgency is above 0.7, \<open>Medium\<close>
  exactly when it is above 0.3 and at most 0.7, and \<open>Low\<close> exactly when it is at most
  0.3.  The bounds are strict: 0.7 gives \<open>Medium\<close> and 0.3 gives \<open>Low\<close>.
\<close>

theorem priority_from_urgency:
  assumes "registry_ok s" and "availableAgents s \<noteq> []"
  shows "\<exists>a s1 s' tk.
           selectBestAgent (availableAgents s) need t1 s = Inr (a, s1)
         \<and> handleCitizenNeed need t1 t2 s = Inr s'
         \<and> map_get (agents s') (agent_id a) = Some (a\<lparr>currentTask := Some tk\<rparr>)
         \<and> emitted ''taskAssigned'' (trace s')
             = emitted ''taskAssigned'' (trace s) @ [\<lparr>agentId = agent_id a, task = tk\<rparr>]
         \<and> (priority tk = High \<longleftrightarrow> urgency need > 0.7)
         \<and> (priority tk = Medium \<longleftrightarrow> 0.3 < urgency need \<and> urgency need \<le> 0.7)
         \<and> (priority tk = Low \<longleftrightarrow> urgency need \<le> 0.3)"
proof -
  let ?tk = "citizenRequestTask need"
  from assignment_outcome [OF assms, of need t1 t2] obtain a s'
    where sel: "selectBestAgent (availableAgents s) need t1 s
                  = Inr (a, perform (agentSelectedEvent a need t1) s)"
      and res: "handleCitizenNeed need t1 t2 s = Inr s'"
      and ag: "agents s' = map_set (agents s) (agent_id a) (a\<lparr>currentTask := Some ?tk\<rparr>)"
      and tr: "trace s' = trace s @
                  [agentSelectedEvent a need t1,
                   TrackEvent ''task_assigned''
                     (TaskAssignedPayload (agent_id a) ''citizen_request'' (priority ?tk) t2),
                   Emit ''taskAssigned'' \<lparr>agentId = agent_id a, task = ?tk\<rparr>,
                   UpdateMetrics (derivedMetrics a)]"
    by blast
  have "map_get (agents s') (agent_id a) = Some (a\<lparr>currentTask := Some ?tk\<rparr>)"
    by (simp add: ag map_get_map_set)
  moreover have "emitted ''taskAssigned'' (trace s')
      = emitted ''taskAssigned'' (trace s) @ [\<lparr>agentId = agent_id a, task = ?tk\<rparr>]"
    by (simp add: tr emitted_append agentSelectedEvent_def)
  ultimately show ?thesis
    using sel res priority_thresholds [of need] by blast
qed

theorem priority_from_urgency_witness:
  "registry_ok team_service \<and> availableAgents team_service \<noteq> []
   \<and> (\<exists>s' tk. handleCitizenNeed (needOf ''Pothole on Main Street'' 0.7) 11 12 team_service = Inr s'
         \<and> map_get (agents s') ''bob'' = Some (bob\<lparr>currentTask := Some tk\<rparr>)
         \<and> emitted ''taskAssigned'' (trace s') = [\<lparr>agentId = ''bob'', task = tk\<rparr>]
         \<and> priority tk = Medium)
   \<and> (\<exists>s' tk. handleCitizenNeed (needOf ''Pothole on Main Street'' 0.3) 11 12 team_service = Inr s'
         \<and> map_get (agents s') ''bob'' = Some (bob\<lparr>currentTask := Some tk\<rparr>)
         \<and> emitted ''taskAssigned'' (trace s') = [\<lparr>agentId = ''bob'', task = tk\<rparr>]
         \<and> priority tk = Low)
   \<and> (\<exists>s' tk. handleCitizenNeed (needOf ''Pothole on Main Street'' 0.8) 11 12 team_service = Inr s'
         \<and> map_get (agents s') ''bob'' = Some (bob\<lparr>currentTask := Some tk\<rparr>)
         \<and> emitted ''taskAssigned'' (trace s') = [\<lparr>agentId = ''bob'', task = tk\<rparr>]
         \<and> priority tk = High)"
proof -
  have ne: "availableAgents team_service \<noteq> []"
    by (simp add: available_team)
  have bob: "agent_id bob = ''bob''" and empty: "trace team_service = []"
    by (simp_all add: demo_defs)
  have at: "\<exists>s' tk. handleCitizenNeed (needOf d u) 11 12 team_service = Inr s'
         \<and> map_get (agents s') ''bob'' = Some (bob\<lparr>currentTask := Some tk\<rparr>)
         \<and> emitted ''taskAssigned'' (trace s') = [\<lparr>agentId = ''bob'', task = tk\<rparr>]
         \<and> (priority tk = High \<longleftrightarrow> u > 0.7)
         \<and> (priority tk = Medium \<longleftrightarrow> 0.3 < u \<and> u \<le> 0.7)
         \<and> (priority tk = Low \<longleftrightarrow> u \<le> 0.3)" for d u
    using priority_from_urgency [OF registry_ok_team ne, of "needOf d u" 11 12]
    by (simp add: select_team bob empty needOf_def)
  have "\<exists>s' tk. handleCitizenNeed (needOf ''Pothole on Main Street'' 0.7) 11 12 team_service = Inr s'
         \<and> map_get (agents s') ''bob'' = Some (bob\<lparr>currentTask := Some tk\<rparr>)
         \<and> emitted ''taskAssigned'' (trace s') = [\<lparr>agentId = ''bob'', task = tk\<rparr>]
         \<and> priority tk = Medium"
    using at [of "''Pothole on Main Street''" "0.7"] by simp blast
  moreover
  have "\<exists>s' tk. handleCitizenNeed (needOf ''Pothole on Main Street'' 0.3) 11 12 team_service = Inr s'
         \<and> map_get (agents s') ''bob'' = Some (bob\<lparr>currentTask := Some tk\<rparr>)
         \<and> emitted ''taskAssigned'' (trace s') = [\<lparr>agentId = ''bob'', task = tk\<rparr>]
         \<and> priority tk = Low"
    using at [of "''Pothole on Main Street''" "0.3"] by simp blast
  moreover
  have "\<exists>s' tk. handleCitizenNeed (needOf ''Pothole on Main Street'' 0.8) 11 12 team_service = Inr s'
         \<and> map_get (agents s') ''bob'' = Some (bob\<lparr>currentTask := Some tk\<rparr>)
         \<and> emitted ''taskAssigned'' (trace s') = [\<lparr>agentId = ''bob'', task = tk\<rparr>]
         \<and> priority tk = High"
    using at [of "''Pothole on Main Street''" "0.8"] by simp blast
  ultimately show ?thesis
    using registry_ok_team ne by blast
qed

text \<open>
  C3.  When no agent of the registry is available without a current task,
  \<^verbatim>\<open>handleCitizenNeed\<close> returns normally, leaves the registry as it is and makes one call
  only: the telemetry event \<^verbatim>\<open>no_available_agents\<close>.  No notification is emitted and no
  metrics update is pushed.
\<close>

theorem no_available_agents_only:
  assumes "\<forall>a \<in> set (map_values (agents s)).
             \<not> (availability (schedule a) \<and> currentTask a = None)"
  shows "handleCitizenNeed need t1 t2 s =
           Inr (s\<lparr>trace := trace s @
                  [TrackEvent ''no_available_agents''
                     (NoAvailableAgentsPayload (need_type need) (urgency need) t1)]\<rparr>)"
proof -
  from assms have "availableAgents s = []"
    by (simp add: availableAgents_def filter_empty_conv)
  then show ?thesis
    by (simp add: handleCitizenNeed_def perform_def)
qed

theorem no_available_agents_only_witness:
  "handleCitizenNeed (needOf ''Pothole on Main Street'' 0.9) 11 12 busy_service =
     Inr \<lparr>agents = [(''dave'', dave), (''erin'', erin)],
          trace = [TrackEvent ''no_available_agents''
                     (NoAvailableAgentsPayload ''road_repair'' 0.9 11)]\<rparr>"
proof -
  have "\<forall>a \<in> set (map_values (agents busy_service)).
          \<not> (availability (schedule a) \<and> currentTask a = None)"
    by (simp add: map_values_def demo_defs)
  from no_available_agents_only [OF this, of "needOf ''Pothole on Main Street'' 0.9" 11 12]
  show ?thesis
    by (simp add: busy_service_def needOf_def)
qed

text \<open>
  C4, as amended.  When the embedding call fails, \<^verbatim>\<open>registerAgent\<close> makes no call to the
  vector index and tracks no \<^verbatim>\<open>agent_registered\<close> event; it logs the failure on the
  console and throws again the very error the embedding provider threw, without wrapping
  it; the registry is unchanged.
\<close>

theorem embedding_failure:
  assumes "createEmbedding (embeddingInput agent) = Inl e"
  shows "registerAgent createEmbedding upsert stringify now agent s =
           (Inl e,
            s\<lparr>trace := trace s @
                 [CreateEmbedding (embeddingInput agent),
                  ConsoleError (''Failed to register agent '' @ a_name agent @ '':'') e]\<rparr>)"
  using assms by (simp add: registerAgent_def registerAgent_try_def perform_def)

theorem embedding_failure_witness:
  "failingEmbedding (embeddingInput clerk) = Inl (Error ''Error'' ''Together API request failed'')
   \<and> registerAgent failingEmbedding acceptingUpsert (\<lambda>t. ''{}'') 11 clerk demo_service =
       (Inl (Error ''Error'' ''Together API request failed''),
        \<lparr>agents = agents demo_service,
         trace = [CreateEmbedding ''clerk calm records parks'',
                  ConsoleError ''Failed to register agent Dana:''
                    (Error ''Error'' ''Together API request failed'')]\<rparr>)"
proof -
  have h: "failingEmbedding (embeddingInput clerk)
             = Inl (Error ''Error'' ''Together API request failed'')"
    by (simp add: failingEmbedding_def)
  from embedding_failure
         [where createEmbedding = failingEmbedding and agent = clerk
            and upsert = acceptingUpsert and stringify = "\<lambda>t. ''{}''" and now = 11
            and s = demo_service, OF h]
  have "registerAgent failingEmbedding acceptingUpsert (\<lambda>t. ''{}'') 11 clerk demo_service =
       (Inl (Error ''Error'' ''Together API request failed''),
        \<lparr>agents = agents demo_service,
         trace = [CreateEmbedding ''clerk calm records parks'',
                  ConsoleError ''Failed to register agent Dana:''
                    (Error ''Error'' ''Together API request failed'')]\<rparr>)"
    by (simp add: embeddingInput_def clerk_def demo_service_def)
  with h show ?thesis
    by simp
qed

text \<open>
  C4 as stated does not hold: the error that reaches the caller is the provider's own
  error, here one whose class name is \<^verbatim>\<open>Error\<close>, not an \<^verbatim>\<open>EnrollmentError\<close>.
\<close>

theorem enrollment_error_counterexample:
  "map_sum error_name id
     (fst (registerAgent failingEmbedding acceptingUpsert (\<lambda>t. ''{}'') 11 clerk demo_service))
     = Inl ''Error''
   \<and> map_sum error_name id
     (fst (registerAgent failingEmbedding acceptingUpsert (\<lambda>t. ''{}'') 11 clerk demo_service))
     \<noteq> Inl ''EnrollmentError''"
  by (simp add: registerAgent_def registerAgent_try_def failingEmbedding_def)

text \<open>
  C5.  The listener of \<^verbatim>\<open>agentsHealthUpdated\<close> leaves the identifiers of the registry
  as they are, in the same order: it adds none and removes none.  Under every identifier
  the registry holds either the agent it held before or an agent of the event that
  carries this identifier, and the latter only where the identifier was present before.
\<close>

theorem health_update_keeps_identifiers:
  "map fst (agents (agentsHealthUpdated departmentId updated s)) = map fst (agents s)
   \<and> (\<forall>k. map_get (agents (agentsHealthUpdated departmentId updated s)) k
              = map_get (agents s) k
          \<or> (\<exists>u \<in> set updated. agent_id u = k \<and> map_has (agents s) k
                \<and> map_get (agents (agentsHealthUpdated departmentId updated s)) k = Some u))"
  unfolding agentsHealthUpdated_def
  using foldl_healthUpdate_keys [of s updated] foldl_healthUpdate_get [of s updated]
  by blast

theorem health_update_keeps_identifiers_witness:
  "map fst (agents (agentsHealthUpdated ''roads'' [frank, bob_off] demo_service))
     = [''alice'', ''bob'', ''carol'', ''dave'', ''erin'']
   \<and> map_get (agents (agentsHealthUpdated ''roads'' [frank, bob_off] demo_service)) ''frank''
     = None
   \<and> map_get (agents (agentsHealthUpdated ''roads'' [frank, bob_off] demo_service)) ''bob''
     = Some bob_off"
proof -
  let ?s' = "agentsHealthUpdated ''roads'' [frank, bob_off] demo_service"
  note inst = health_update_keeps_identifiers [of "''roads''" "[frank, bob_off]" demo_service]
  from inst have "map fst (agents ?s') = map fst (agents demo_service)"
    by (rule conjunct1)
  then have keys: "map fst (agents ?s') = [''alice'', ''bob'', ''carol'', ''dave'', ''erin'']"
    by (simp add: demo_service_def)
  have absent: "map_get (agents demo_service) ''frank'' = None"
    "\<not> map_has (agents demo_service) ''frank''"
    by (simp_all add: demo_service_def map_has_def)
  from inst have "map_get (agents ?s') ''frank'' = map_get (agents demo_service) ''frank''
      \<or> (\<exists>u \<in> set [frank, bob_off]. agent_id u = ''frank''
            \<and> map_has (agents demo_service) ''frank''
            \<and> map_get (agents ?s') ''frank'' = Some u)"
    by blast
  with absent have none: "map_get (agents ?s') ''frank'' = None"
    by auto
  have "map_get (agents ?s') ''bob'' = Some bob_off"
    by (simp add: agentsHealthUpdated_def healthUpdate_step_def map_has_def demo_defs
          frank_def bob_off_def)
  with keys none show ?thesis
    by simp
qed

text \<open>
  C6.  With the framework's \<^verbatim>\<open>NextResponse.json\<close> the handler answers every request and
  every district identifier with status 200 and the record
  \<open>{airQuality: 250, noiseLevel: 60, crowdingLevel: 68, greenSpaceUsage: 78}\<close>; neither
  the request nor the identifier is used.  For any behaviour of the response builder:
  where it returns, the handler returns that response, and where it throws, the handler
  answers with what the builder makes of the body
  \<open>{error: "Failed to fetch environmental metrics"}\<close> and the status 500.
\<close>

theorem environmental_metrics_fixed:
  "GET NextResponse_json request ps =
     Inr \<lparr>status = 200,
          body = Data \<lparr>airQuality = 250, noiseLevel = 60, crowdingLevel = 68,
                       greenSpaceUsage = 78\<rparr>\<rparr>
   \<and> (\<forall>json r.
         json (Data \<lparr>airQuality = 250, noiseLevel = 60, crowdingLevel = 68,
                     greenSpaceUsage = 78\<rparr>) None = Inr r
         \<longrightarrow> GET json request ps = Inr r)
   \<and> (\<forall>json err.
         json (Data \<lparr>airQuality = 250, noiseLevel = 60, crowdingLevel = 68,
                     greenSpaceUsage = 78\<rparr>) None = Inl err
         \<longrightarrow> GET json request ps
               = json (ErrorBody ''Failed to fetch environmental metrics'') (Some 500))"
  by (simp add: GET_def NextResponse_json_def)

theorem environmental_metrics_fixed_witness:
  "GET NextResponse_json () \<lparr>params_id = []\<rparr> =
     Inr \<lparr>status = 200,
          body = Data \<lparr>airQuality = 250, noiseLevel = 60, crowdingLevel = 68,
                       greenSpaceUsage = 78\<rparr>\<rparr>
   \<and> GET NextResponse_json () \<lparr>params_id = ''%00/../x''\<rparr> =
     Inr \<lparr>status = 200,
          body = Data \<lparr>airQuality = 250, noiseLevel = 60, crowdingLevel = 68,
                       greenSpaceUsage = 78\<rparr>\<rparr>
   \<and> GET failingJson () \<lparr>params_id = ''7''\<rparr> =
     Inr \<lparr>status = 500, body = ErrorBody ''Failed to fetch environmental metrics''\<rparr>"
proof -
  let ?data = "Data \<lparr>airQuality = 250, noiseLevel = 60, crowdingLevel = 68,
                     greenSpaceUsage = 78\<rparr>"
  have fails: "failingJson ?data None
                 = Inl (Error ''TypeError'' ''Response body could not be serialized'')"
    by (simp add: failingJson_def)
  from environmental_metrics_fixed [of "()" "\<lparr>params_id = ''7''\<rparr>"] fails
  have "GET failingJson () \<lparr>params_id = ''7''\<rparr>
          = failingJson (ErrorBody ''Failed to fetch environmental metrics'') (Some 500)"
    by blast
  then have "GET failingJson () \<lparr>params_id = ''7''\<rparr> =
     Inr \<lparr>status = 500, body = ErrorBody ''Failed to fetch environmental metrics''\<rparr>"
    by (simp add: failingJson_def NextResponse_json_def)
  with environmental_metrics_fixed [of "()" "\<lparr>params_id = []\<rparr>"]
    environmental_metrics_fixed [of "()" "\<lparr>params_id = ''%00/../x''\<rparr>"]
  show ?thesis
    by blast
qed

text \<open>
  C7.  When there is an eligible agent, \<^verbatim>\<open>handleCitizenNeed\<close> pushes exactly one metrics
  update: its healthcare access score is the efficiency of the selected agent, its
  community wellbeing is the citizen satisfaction of the selected agent, and its education
  quality index is 0.8, whatever the need.
\<close>

theorem metrics_update_from_selected:
  assumes "availableAgents s \<noteq> []"
  shows "\<exists>a s1 s'.
           selectBestAgent (availableAgents s) need t1 s = Inr (a, s1)
         \<and> handleCitizenNeed need t1 t2 s = Inr s'
         \<and> metricsUpdates (trace s')
             = metricsUpdates (trace s) @
                 [\<lparr>healthcareAccessScore = efficiency (performance a),
                   educationQualityIndex = 0.8,
                   communityWellbeing = citizenSatisfaction (performance a)\<rparr>]"
proof -
  from selectBestAgent_available [OF assms] obtain a
    where sel: "selectBestAgent (availableAgents s) need t1 s
                  = Inr (a, perform (agentSelectedEvent a need t1) s)"
    by blast
  let ?s1 = "perform (agentSelectedEvent a need t1) s"
  let ?s' = "perform (UpdateMetrics (derivedMetrics a))
               (assignTask (agent_id a) (citizenRequestTask need) t2 ?s1)"
  have res: "handleCitizenNeed need t1 t2 s = Inr ?s'"
    by (rule handleCitizenNeed_selected [OF sel])
  have "metricsUpdates (trace ?s1) = metricsUpdates (trace s)"
    by (simp add: perform_def agentSelectedEvent_def metricsUpdates_append)
  then have "metricsUpdates (trace ?s') = metricsUpdates (trace s) @ [derivedMetrics a]"
    by (simp add: perform_def [of "UpdateMetrics (derivedMetrics a)"] metricsUpdates_append
          assignTask_metricsUpdates)
  with sel res show ?thesis
    unfolding derivedMetrics_def by blast
qed

theorem metrics_update_from_selected_witness:
  "availableAgents team_service \<noteq> []
   \<and> (\<exists>s'. handleCitizenNeed (needOf ''Pothole on Main Street'' 0.5) 11 12 team_service = Inr s'
         \<and> metricsUpdates (trace s')
             = [\<lparr>healthcareAccessScore = 0.5, educationQualityIndex = 0.8,
                 communityWellbeing = 0.75\<rparr>])"
proof -
  have ne: "availableAgents team_service \<noteq> []"
    by (simp add: available_team)
  have bob: "efficiency (performance bob) = 0.5" "citizenSatisfaction (performance bob) = 0.75"
    and empty: "trace team_service = []"
    by (simp_all add: demo_defs)
  from metrics_update_from_selected
         [OF ne, of "needOf ''Pothole on Main Street'' 0.5" 11 12]
  have "\<exists>s'. handleCitizenNeed (needOf ''Pothole on Main Street'' 0.5) 11 12 team_service = Inr s'
         \<and> metricsUpdates (trace s')
             = [\<lparr>healthcareAccessScore = 0.5, educationQualityIndex = 0.8,
                 communityWellbeing = 0.75\<rparr>]"
    by (simp add: select_team empty bob)
  with ne show ?thesis
    by blast
qed

text \<open>
  C8, as amended.  In a well-formed registry with an eligible agent,
  \<^verbatim>\<open>handleCitizenNeed\<close> stores the created task with the selected agent, tracks one
  \<^verbatim>\<open>task_assigned\<close> event that carries the identifier of the selected agent and the type
  and the priority of the created task, and emits one \<^verbatim>\<open>taskAssigned\<close> notification
  that carries the identifier of the selected agent and the created task.
\<close>

theorem assignment_events:
  assumes "registry_ok s" and "availableAgents s \<noteq> []"
  shows "\<exists>a s1 s'.
           selectBestAgent (availableAgents s) need t1 s = Inr (a, s1)
         \<and> handleCitizenNeed need t1 t2 s = Inr s'
         \<and> map_get (agents s') (agent_id a)
             = Some (a\<lparr>currentTask := Some (citizenRequestTask need)\<rparr>)
         \<and> tracked ''task_assigned'' (trace s')
             = tracked ''task_assigned'' (trace s) @
                 [TaskAssignedPayload (agent_id a) (task_type (citizenRequestTask need))
                    (priority (citizenRequestTask need)) t2]
         \<and> emitted ''taskAssigned'' (trace s')
             = emitted ''taskAssigned'' (trace s) @
                 [\<lparr>agentId = agent_id a, task = citizenRequestTask need\<rparr>]"
proof -
  let ?tk = "citizenRequestTask need"
  from assignment_outcome [OF assms, of need t1 t2] obtain a s'
    where sel: "selectBestAgent (availableAgents s) need t1 s
                  = Inr (a, perform (agentSelectedEvent a need t1) s)"
      and res: "handleCitizenNeed need t1 t2 s = Inr s'"
      and ag: "agents s' = map_set (agents s) (agent_id a) (a\<lparr>currentTask := Some ?tk\<rparr>)"
      and tr: "trace s' = trace s @
                  [agentSelectedEvent a need t1,
                   TrackEvent ''task_assigned''
                     (TaskAssignedPayload (agent_id a) ''citizen_request'' (priority ?tk) t2),
                   Emit ''taskAssigned'' \<lparr>agentId = agent_id a, task = ?tk\<rparr>,
                   UpdateMetrics (derivedMetrics a)]"
    by blast
  have "map_get (agents s') (agent_id a) = Some (a\<lparr>currentTask := Some ?tk\<rparr>)"
    by (simp add: ag map_get_map_set)
  moreover have "tracked ''task_assigned'' (trace s')
      = tracked ''task_assigned'' (trace s) @
          [TaskAssignedPayload (agent_id a) (task_type ?tk) (priority ?tk) t2]"
    by (simp add: tr tracked_append agentSelectedEvent_def citizenRequestTask_def)
  moreover have "emitted ''taskAssigned'' (trace s')
      = emitted ''taskAssigned'' (trace s) @ [\<lparr>agentId = agent_id a, task = ?tk\<rparr>]"
    by (simp add: tr emitted_append agentSelectedEvent_def)
  ultimately show ?thesis
    using sel res by blast
qed

theorem assignment_events_witness:
  "registry_ok team_service \<and> availableAgents team_service \<noteq> []
   \<and> (\<exists>s'. handleCitizenNeed (needOf ''Pothole on Main Street'' 0.5) 11 12 team_service = Inr s'
         \<and> tracked ''task_assigned'' (trace s')
             = [TaskAssignedPayload ''bob'' ''citizen_request'' Medium 12]
         \<and> emitted ''taskAssigned'' (trace s')
             = [\<lparr>agentId = ''bob'',
                 task = \<lparr>task_type = ''citizen_request'',
                         task_description = ''Pothole on Main Street'',
                         priority = Medium\<rparr>\<rparr>])"
proof -
  have ne: "availableAgents team_service \<noteq> []"
    by (simp add: available_team)
  have bob: "agent_id bob = ''bob''" and empty: "trace team_service = []"
    by (simp_all add: demo_defs)
  from assignment_events
         [OF registry_ok_team ne, of "needOf ''Pothole on Main Street'' 0.5" 11 12]
  have "\<exists>s'. handleCitizenNeed (needOf ''Pothole on Main Street'' 0.5) 11 12 team_service = Inr s'
         \<and> tracked ''task_assigned'' (trace s')
             = [TaskAssignedPayload ''bob'' ''citizen_request'' Medium 12]
         \<and> emitted ''taskAssigned'' (trace s')
             = [\<lparr>agentId = ''bob'',
                 task = \<lparr>task_type = ''citizen_request'',
                         task_description = ''Pothole on Main Street'',
                         priority = Medium\<rparr>\<rparr>]"
    by (simp add: select_team bob empty citizenRequestTask_def needOf_def) blast
  with registry_ok_team ne show ?thesis
    by blast
qed

text \<open>
  C8 as stated does not hold for the telemetry event: it does not carry the description
  of the task.  Two needs that differ in their description lead to two different tasks,
  which the notifications carry, and to the same \<^verbatim>\<open>task_assigned\<close> payload.
\<close>

theorem telemetry_without_description_counterexample:
  "map_sum id (\<lambda>s'. tracked ''task_assigned'' (trace s'))
       (handleCitizenNeed (needOf ''Pothole on Main Street'' 0.5) 11 12 team_service)
     = Inr [TaskAssignedPayload ''bob'' ''citizen_request'' Medium 12]
   \<and> map_sum id (\<lambda>s'. tracked ''task_assigned'' (trace s'))
       (handleCitizenNeed (needOf ''Street light out at the park'' 0.5) 11 12 team_service)
     = Inr [TaskAssignedPayload ''bob'' ''citizen_request'' Medium 12]
   \<and> map_sum id (\<lambda>s'. map task (emitted ''taskAssigned'' (trace s')))
       (handleCitizenNeed (needOf ''Pothole on Main Street'' 0.5) 11 12 team_service)
     = Inr [\<lparr>task_type = ''citizen_request'', task_description = ''Pothole on Main Street'',
             priority = Medium\<rparr>]
   \<and> map_sum id (\<lambda>s'. map task (emitted ''taskAssigned'' (trace s')))
       (handleCitizenNeed (needOf ''Street light out at the park'' 0.5) 11 12 team_service)
     = Inr [\<lparr>task_type = ''citizen_request'',
             task_description = ''Street light out at the park'', priority = Medium\<rparr>]
   \<and> citizenRequestTask (needOf ''Pothole on Main Street'' 0.5)
       \<noteq> citizenRequestTask (needOf ''Street light out at the park'' 0.5)"
proof -
  have bob: "agent_id bob = ''bob''" and empty: "trace team_service = []"
    and get: "map_get (agents team_service) ''bob'' = Some bob"
    by (simp_all add: demo_defs)
  have run: "handleCitizenNeed (needOf d 0.5) 11 12 team_service =
      Inr (perform (UpdateMetrics (derivedMetrics bob))
            (assignTask ''bob'' (citizenRequestTask (needOf d 0.5)) 12
               (perform (agentSelectedEvent bob (needOf d 0.5) 11) team_service)))" for d
    using handleCitizenNeed_selected [OF select_team, of "needOf d 0.5" 11 12]
    by (simp add: bob)
  show ?thesis
    unfolding run
    by (simp add: assignTask_def perform_def get empty agentSelectedEvent_def
          citizenRequestTask_def needOf_def)
qed

text \<open>
  C9.  In a well-formed registry with an eligible agent, \<^verbatim>\<open>handleCitizenNeed\<close> keeps
  the identifiers of the registry and their order, leaves the entry of every identifier
  other than that of the selected agent as it was, and replaces the entry of the selected
  agent by an agent that differs from it in the current task at most: identifier,
  schedule, performance and every further field are the same.
\<close>

theorem assignment_frame:
  assumes "registry_ok s" and "availableAgents s \<noteq> []"
  shows "\<exists>a s1 s' a'.
           selectBestAgent (availableAgents s) need t1 s = Inr (a, s1)
         \<and> handleCitizenNeed need t1 t2 s = Inr s'
         \<and> map fst (agents s') = map fst (agents s)
         \<and> (\<forall>k. k \<noteq> agent_id a \<longrightarrow> map_get (agents s') k = map_get (agents s) k)
         \<and> map_get (agents s) (agent_id a) = Some a
         \<and> map_get (agents s') (agent_id a) = Some a'
         \<and> a'\<lparr>currentTask := currentTask a\<rparr> = a
         \<and> agent_id a' = agent_id a
         \<and> schedule a' = schedule a
         \<and> performance a' = performance a
         \<and> DepartmentAgent.more a' = DepartmentAgent.more a"
proof -
  let ?tk = "citizenRequestTask need"
  from assignment_outcome [OF assms, of need t1 t2] obtain a s'
    where sel: "selectBestAgent (availableAgents s) need t1 s
                  = Inr (a, perform (agentSelectedEvent a need t1) s)"
      and get: "map_get (agents s) (agent_id a) = Some a"
      and res: "handleCitizenNeed need t1 t2 s = Inr s'"
      and ag: "agents s' = map_set (agents s) (agent_id a) (a\<lparr>currentTask := Some ?tk\<rparr>)"
    by blast
  let ?a' = "a\<lparr>currentTask := Some ?tk\<rparr>"
  from get have "map_has (agents s) (agent_id a)"
    by (simp add: map_has_def)
  then have keys: "map fst (agents s') = map fst (agents s)"
    by (simp add: ag map_set_keys)
  have others: "\<forall>k. k \<noteq> agent_id a \<longrightarrow> map_get (agents s') k = map_get (agents s) k"
    by (simp add: ag map_get_map_set)
  have new: "map_get (agents s') (agent_id a) = Some ?a'"
    by (simp add: ag map_get_map_set)
  have same: "?a'\<lparr>currentTask := currentTask a\<rparr> = a" "agent_id ?a' = agent_id a"
    "schedule ?a' = schedule a" "performance ?a' = performance a"
    "DepartmentAgent.more ?a' = DepartmentAgent.more a"
    by simp_all
  from sel res keys others get new same show ?thesis
    by blast
qed

theorem assignment_frame_witness:
  "registry_ok team_service \<and> availableAgents team_service \<noteq> []
   \<and> (\<exists>s' a'. handleCitizenNeed (needOf ''Pothole on Main Street'' 0.5) 11 12 team_service = Inr s'
         \<and> map fst (agents s') = [''alice'', ''bob'', ''dave'', ''erin'']
         \<and> map_get (agents s') ''alice'' = Some alice
         \<and> map_get (agents s') ''dave'' = Some dave
         \<and> map_get (agents s') ''erin'' = Some erin
         \<and> map_get (agents s') ''bob'' = Some a'
         \<and> agent_id a' = ''bob''
         \<and> schedule a' = schedule bob
         \<and> performance a' = performance bob)"
proof -
  let ?need = "needOf ''Pothole on Main Street'' 0.5"
  have ne: "availableAgents team_service \<noteq> []"
    by (simp add: available_team)
  have bob: "agent_id bob = ''bob''"
    by (simp add: demo_defs)
  from assignment_frame [OF registry_ok_team ne, of ?need 11 12] obtain s' a'
    where res: "handleCitizenNeed ?need 11 12 team_service = Inr s'"
      and keys: "map fst (agents s') = map fst (agents team_service)"
      and others: "\<forall>k. k \<noteq> ''bob'' \<longrightarrow> map_get (agents s') k = map_get (agents team_service) k"
      and new: "map_get (agents s') ''bob'' = Some a'"
      and same: "agent_id a' = ''bob''" "schedule a' = schedule bob"
        "performance a' = performance bob"
    by (auto simp: select_team bob)
  from keys have "map fst (agents s') = [''alice'', ''bob'', ''dave'', ''erin'']"
    by (simp add: team_service_def)
  moreover from others have "map_get (agents s') ''alice'' = Some alice"
    "map_get (agents s') ''dave'' = Some dave"
    "map_get (agents s') ''erin'' = Some erin"
    by (simp_all add: team_service_def)
  ultimately have "\<exists>s' a'. handleCitizenNeed ?need 11 12 team_service = Inr s'
         \<and> map fst (agents s') = [''alice'', ''bob'', ''dave'', ''erin'']
         \<and> map_get (agents s') ''alice'' = Some alice
         \<and> map_get (agents s') ''dave'' = Some dave
         \<and> map_get (agents s') ''erin'' = Some erin
         \<and> map_get (agents s') ''bob'' = Some a'
         \<and> agent_id a' = ''bob''
         \<and> schedule a' = schedule bob
         \<and> performance a' = performance bob"
    using res new same by - (intro exI [of _ s'] exI [of _ a'] conjI, assumption+)
  with registry_ok_team ne show ?thesis
    by - (intro conjI, assumption+)
qed

text \<open>
  C10.  When there is an eligible agent, the \<^verbatim>\<open>agent_selected\<close> event tracked by
  \<^verbatim>\<open>selectBestAgent\<close> has the efficiency of the selected agent in its score field.  In
  the example the efficiency of the selected agent is 0.5 and its score is 0.8.
\<close>

theorem selected_event_score:
  assumes "availableAgents s \<noteq> []"
  shows "\<exists>a s1 s'.
           selectBestAgent (availableAgents s) need t1 s = Inr (a, s1)
         \<and> handleCitizenNeed need t1 t2 s = Inr s'
         \<and> trace s1 = trace s @
             [TrackEvent ''agent_selected''
                (AgentSelectedPayload (agent_id a) (need_type need) (urgency need)
                   (efficiency (performance a)) t1)]
         \<and> tracked ''agent_selected'' (trace s')
             = tracked ''agent_selected'' (trace s) @
                 [AgentSelectedPayload (agent_id a) (need_type need) (urgency need)
                    (efficiency (performance a)) t1]"
proof -
  from selectBestAgent_available [OF assms] obtain a
    where sel: "selectBestAgent (availableAgents s) need t1 s
                  = Inr (a, perform (agentSelectedEvent a need t1) s)"
    by blast
  let ?s1 = "perform (agentSelectedEvent a need t1) s"
  let ?s' = "perform (UpdateMetrics (derivedMetrics a))
               (assignTask (agent_id a) (citizenRequestTask need) t2 ?s1)"
  have res: "handleCitizenNeed need t1 t2 s = Inr ?s'"
    by (rule handleCitizenNeed_selected [OF sel])
  have s1: "trace ?s1 = trace s @
             [TrackEvent ''agent_selected''
                (AgentSelectedPayload (agent_id a) (need_type need) (urgency need)
                   (efficiency (performance a)) t1)]"
    by (simp add: perform_def agentSelectedEvent_def)
  have "tracked ''agent_selected'' (trace (assignTask k tk t2 ?s1))
          = tracked ''agent_selected'' (trace ?s1)" for k tk
    by (simp add: assignTask_def perform_def tracked_append agentSelectedEvent_def
          split: option.splits)
  then have "tracked ''agent_selected'' (trace ?s')
      = tracked ''agent_selected'' (trace s) @
                 [AgentSelectedPayload (agent_id a) (need_type need) (urgency need)
                    (efficiency (performance a)) t1]"
    by (simp add: perform_def [of "UpdateMetrics (derivedMetrics a)"] tracked_append s1)
  with sel res s1 show ?thesis
    by blast
qed

theorem selected_event_score_witness:
  "availableAgents team_service \<noteq> []
   \<and> (\<exists>s'. handleCitizenNeed (needOf ''Pothole on Main Street'' 0.5) 11 12 team_service = Inr s'
         \<and> tracked ''agent_selected'' (trace s')
             = [AgentSelectedPayload ''bob'' ''road_repair'' 0.5 0.5 11])
   \<and> efficiency (performance bob) = 0.5
   \<and> 0.75 < score bob"
proof -
  have ne: "availableAgents team_service \<noteq> []"
    by (simp add: available_team)
  have bob: "agent_id bob = ''bob''" "efficiency (performance bob) = 0.5"
    and empty: "trace team_service = []"
    by (simp_all add: demo_defs)
  from selected_event_score [OF ne, of "needOf ''Pothole on Main Street'' 0.5" 11 12]
  have "\<exists>s'. handleCitizenNeed (needOf ''Pothole on Main Street'' 0.5) 11 12 team_service = Inr s'
         \<and> tracked ''agent_selected'' (trace s')
             = [AgentSelectedPayload ''bob'' ''road_repair'' 0.5 0.5 11]"
    by (simp add: select_team bob empty needOf_def) blast
  moreover have "0.75 < score bob"
    by (simp add: demo_scores)
  ultimately show ?thesis
    using ne bob(2) by blast
qed

end
